theory Spec2Isabelle
  imports Complex_Main "HOL-Library.Monad_Syntax"
begin

section \<open>Floating-point values\<close>

text \<open>
  The C++ types \<^verbatim>\<open>float\<close> and \<^verbatim>\<open>double\<close> are the IEEE 754 formats binary32 and binary64.
  A value of either is modelled by one datatype: \<open>Fin v\<close> is the finite value with the real
  number \<open>v\<close> (\<open>Fin 0\<close> is the zero with positive sign), \<open>NegZero\<close> is the zero with negative
  sign, and the infinities and NaN are constructors of their own. What distinguishes the
  two formats is the rounding that an operation applies to its exact result.
\<close>

datatype float = Fin real | NegZero | PInf | NInf | NaN

type_synonym double = float

fun isfinite :: "float \<Rightarrow> bool" where
  "isfinite (Fin v) = True"
| "isfinite NegZero = True"
| "isfinite PInf = False"
| "isfinite NInf = False"
| "isfinite NaN = False"

fun isinf :: "float \<Rightarrow> bool" where
  "isinf (Fin v) = False"
| "isinf NegZero = False"
| "isinf PInf = True"
| "isinf NInf = True"
| "isinf NaN = False"

fun isnan :: "float \<Rightarrow> bool" where
  "isnan (Fin v) = False"
| "isnan NegZero = False"
| "isnan PInf = False"
| "isnan NInf = False"
| "isnan NaN = True"

fun iszero :: "float \<Rightarrow> bool" where
  "iszero (Fin v) = (v = 0)"
| "iszero NegZero = True"
| "iszero PInf = False"
| "iszero NInf = False"
| "iszero NaN = False"

text \<open>The sign bit, and the real number of a finite value (0 for both zeros).\<close>

fun signbit :: "float \<Rightarrow> bool" where
  "signbit (Fin v) = (v < 0)"
| "signbit NegZero = True"
| "signbit PInf = False"
| "signbit NInf = True"
| "signbit NaN = False"

fun fval :: "float \<Rightarrow> real" where
  "fval (Fin v) = v"
| "fval NegZero = 0"
| "fval PInf = 0"
| "fval NInf = 0"
| "fval NaN = 0"

definition zero_of :: "bool \<Rightarrow> float" where
  "zero_of negative = (if negative then NegZero else Fin 0)"

definition inf_of :: "bool \<Rightarrow> float" where
  "inf_of negative = (if negative then NInf else PInf)"

subsection \<open>Rounding to nearest, ties to even\<close>

text \<open>
  A format has a precision \<open>prec\<close> (24 bits for binary32, 53 for binary64), the exponent
  \<open>emin\<close> of its smallest quantum (the spacing of the subnormal numbers, \<open>2 powi emin\<close>)
  and the number \<open>span\<close> of larger quanta. Its finite values are the numbers \<open>m * q\<close> with
  \<open>q\<close> one of these quanta and \<open>m\<close> an integer of magnitude below \<open>2 ^ prec\<close>.
\<close>

datatype format = Format (prec: nat) (emin: int) (span: nat)

definition binary32 :: format where
  "binary32 = Format 24 (- 149) 253"

definition binary64 :: format where
  "binary64 = Format 53 (- 1074) 2045"

definition round_half_even :: "real \<Rightarrow> int" where
  "round_half_even v =
     (let n = \<lfloor>v\<rfloor>; d = v - of_int n
      in if d < 1 / 2 then n else if 1 / 2 < d then n + 1 else if even n then n else n + 1)"

text \<open>
  The quantum of a real number: the smallest quantum \<open>q\<close> of the format with
  \<open>\<bar>v\<bar> < 2 ^ prec * q\<close>, and the largest quantum when there is none.
\<close>

fun quantum_search :: "nat \<Rightarrow> real \<Rightarrow> real \<Rightarrow> real \<Rightarrow> real" where
  "quantum_search 0 P q a = q"
| "quantum_search (Suc n) P q a = (if a < P * q then q else quantum_search n P (2 * q) a)"

definition quantum :: "format \<Rightarrow> real \<Rightarrow> real" where
  "quantum f v = quantum_search (span f) (2 ^ prec f) (2 powi emin f) \<bar>v\<bar>"

definition rval :: "format \<Rightarrow> real \<Rightarrow> real" where
  "rval f v = of_int (round_half_even (v / quantum f v)) * quantum f v"

definition overflow_threshold :: "format \<Rightarrow> real" where
  "overflow_threshold f = 2 ^ prec f * 2 powi (emin f + int (span f))"

text \<open>
  The rounding of the exact result \<open>v\<close> of an operation: to the nearest value of the format,
  a tie to the one with even significand; to an infinity when the rounded magnitude
  reaches \<open>2 ^ 128\<close> (binary32) or \<open>2 ^ 1024\<close> (binary64); to a zero with the sign of \<open>v\<close>
  when a non-zero \<open>v\<close> underflows to zero.
\<close>

definition rnd :: "format \<Rightarrow> real \<Rightarrow> float" where
  "rnd f v =
     (if overflow_threshold f \<le> \<bar>rval f v\<bar> then inf_of (v < 0)
      else if rval f v = 0 then zero_of (v < 0)
      else Fin (rval f v))"

subsection \<open>Arithmetic and comparison\<close>

text \<open>
  The operators \<^verbatim>\<open>+\<close>, \<^verbatim>\<open>-\<close>, \<^verbatim>\<open>*\<close> and \<^verbatim>\<open>/\<close> in a format, by IEEE 754: NaN propagates,
  the infinities follow the usual rules, an exact zero result takes its sign by the
  rules for zeros, and every other result is the exact real result rounded. Each
  operation is rounded on its own (no fused multiply-add, no excess precision).
\<close>

fun fneg :: "float \<Rightarrow> float" where
  "fneg (Fin v) = (if v = 0 then NegZero else Fin (- v))"
| "fneg NegZero = Fin 0"
| "fneg PInf = NInf"
| "fneg NInf = PInf"
| "fneg NaN = NaN"

definition fadd :: "format \<Rightarrow> float \<Rightarrow> float \<Rightarrow> float" where
  "fadd f a b =
     (if isnan a \<or> isnan b then NaN
      else if isinf a then (if isinf b \<and> signbit a \<noteq> signbit b then NaN else a)
      else if isinf b then b
      else if fval a + fval b = 0
        then zero_of ((iszero a \<and> signbit a) \<and> (iszero b \<and> signbit b))
      else rnd f (fval a + fval b))"

definition fsub :: "format \<Rightarrow> float \<Rightarrow> float \<Rightarrow> float" where
  "fsub f a b = fadd f a (fneg b)"

definition fmul :: "format \<Rightarrow> float \<Rightarrow> float \<Rightarrow> float" where
  "fmul f a b =
     (if isnan a \<or> isnan b then NaN
      else if isinf a \<or> isinf b
        then (if iszero a \<or> iszero b then NaN else inf_of (signbit a \<noteq> signbit b))
      else if fval a * fval b = 0 then zero_of (signbit a \<noteq> signbit b)
      else rnd f (fval a * fval b))"

definition fdiv :: "format \<Rightarrow> float \<Rightarrow> float \<Rightarrow> float" where
  "fdiv f a b =
     (if isnan a \<or> isnan b then NaN
      else if isinf a then (if isinf b then NaN else inf_of (signbit a \<noteq> signbit b))
      else if isinf b then zero_of (signbit a \<noteq> signbit b)
      else if iszero b then (if iszero a then NaN else inf_of (signbit a \<noteq> signbit b))
      else if iszero a then zero_of (signbit a \<noteq> signbit b)
      else rnd f (fval a / fval b))"

text \<open>The conversion of a double to \<^verbatim>\<open>float\<close>, as in the assignment \<^verbatim>\<open>angle += 2 * M_PI\<close>.\<close>

definition to_float :: "double \<Rightarrow> float" where
  "to_float a = (if isfinite a \<and> \<not> iszero a then rnd binary32 (fval a) else a)"

text \<open>
  The comparison operators \<^verbatim>\<open><\<close>, \<^verbatim>\<open>>\<close>, \<^verbatim>\<open><=\<close> and \<^verbatim>\<open>==\<close>: all false when an operand is NaN,
  and the two zeros compare equal. A comparison of a float with a double is exact.
\<close>

definition flt :: "float \<Rightarrow> float \<Rightarrow> bool" where
  "flt a b =
     (if isnan a \<or> isnan b then False
      else if a = PInf \<or> b = NInf then False
      else if a = NInf \<or> b = PInf then True
      else fval a < fval b)"

definition fgt :: "float \<Rightarrow> float \<Rightarrow> bool" where
  "fgt a b = flt b a"

definition feq :: "float \<Rightarrow> float \<Rightarrow> bool" where
  "feq a b =
     (if isnan a \<or> isnan b then False
      else if isinf a \<or> isinf b then a = b
      else fval a = fval b)"

definition fle :: "float \<Rightarrow> float \<Rightarrow> bool" where
  "fle a b = (flt a b \<or> feq a b)"

text \<open>\<^verbatim>\<open>std::abs\<close> on a float.\<close>

fun fabs :: "float \<Rightarrow> float" where
  "fabs (Fin v) = Fin \<bar>v\<bar>"
| "fabs NegZero = Fin 0"
| "fabs PInf = PInf"
| "fabs NInf = PInf"
| "fabs NaN = NaN"

text \<open>
  \<^verbatim>\<open>std::atan2\<close> of the C++ standard library, on floats. \<open>atan2_real b a\<close> is the angle in
  \<open>(-pi, pi]\<close> of the point \<open>(a, b)\<close> of the plane. The library function follows Annex F
  of the C standard: it is odd in its first argument, the sign of a zero included; the
  magnitude of its result is \<open>pi\<close> or 0 for a zero first argument, by the sign of the
  second, \<open>pi / 2\<close> for a zero second argument, and the usual multiples of \<open>pi / 4\<close> at the
  infinities; the result is rounded to a float.
\<close>

definition atan2_real :: "real \<Rightarrow> real \<Rightarrow> real" where
  "atan2_real b a =
     (if 0 < a then arctan (b / a)
      else if a < 0 then (if 0 \<le> b then arctan (b / a) + pi else arctan (b / a) - pi)
      else if 0 < b then pi / 2
      else if b < 0 then - (pi / 2)
      else 0)"

definition atan2_magnitude :: "float \<Rightarrow> float \<Rightarrow> real" where
  "atan2_magnitude b a =
     (if isinf b then (if isinf a then (if signbit a then 3 * pi / 4 else pi / 4) else pi / 2)
      else if isinf a then (if signbit a then pi else 0)
      else if iszero b then (if signbit a then pi else 0)
      else if iszero a then pi / 2
      else atan2_real \<bar>fval b\<bar> (fval a))"

definition atan2 :: "float \<Rightarrow> float \<Rightarrow> float" where
  "atan2 b a =
     (if isnan b \<or> isnan a then NaN
      else
        let m = (if atan2_magnitude b a = 0 then Fin 0 else rnd binary32 (atan2_magnitude b a))
        in if signbit b then fneg m else m)"

section \<open>The types of types.h\<close>

text \<open>
  Modelled from the spec: the struct \<^verbatim>\<open>Vec2\<close> of types.h, which is not among the sources.
  The spec's data model gives a point as an ordered pair \<open>(x, y)\<close> of floating-point
  scalars, finite or not, passed by value.
\<close>

record Vec2 =
  x :: float
  y :: float

text \<open>
  Modelled from the spec: \<^verbatim>\<open>operator-\<close> of \<^verbatim>\<open>Vec2\<close> (types.h, not among the sources), the
  component-wise subtraction of the data model, in float arithmetic.
\<close>

definition Vec2_minus :: "Vec2 \<Rightarrow> Vec2 \<Rightarrow> Vec2" where
  "Vec2_minus lhs rhs =
     \<lparr>x = fsub binary32 (x lhs) (x rhs), y = fsub binary32 (y lhs) (y rhs)\<rparr>"

text \<open>
  Modelled from the spec: \<^verbatim>\<open>operator==\<close> of \<^verbatim>\<open>Vec2\<close> (types.h, not among the sources), the
  equality of the data model: both components compare equal as floats.
\<close>

definition Vec2_eq :: "Vec2 \<Rightarrow> Vec2 \<Rightarrow> bool" where
  "Vec2_eq lhs rhs = (feq (x lhs) (x rhs) \<and> feq (y lhs) (y rhs))"

text \<open>
  Modelled from the spec: \<^verbatim>\<open>Vec2::Magnitude\<close> (types.h, not among the sources), by the data
  model the Euclidean norm of the vector: NaN for a NaN component, plus infinity for an
  infinite one, and otherwise the norm rounded to a float, which is plus infinity when
  the norm is beyond the largest float.
\<close>

definition Magnitude :: "Vec2 \<Rightarrow> float" where
  "Magnitude v =
     (if isnan (x v) \<or> isnan (y v) then NaN
      else if isinf (x v) \<or> isinf (y v) then PInf
      else if iszero (x v) \<and> iszero (y v) then Fin 0
      else rnd binary32 (sqrt ((fval (x v))\<^sup>2 + (fval (y v))\<^sup>2)))"

text \<open>
  Modelled from the spec: \<^verbatim>\<open>Vec2::IsFinite\<close> (types.h, not among the sources), by the data
  model the predicate that \<open>x\<close> and \<open>y\<close> are both neither NaN nor infinite.
\<close>

definition IsFinite :: "Vec2 \<Rightarrow> bool" where
  "IsFinite v = (isfinite (x v) \<and> isfinite (y v))"

text \<open>
  Modelled from the spec: the enumeration \<^verbatim>\<open>Input::EventType\<close> of types.h, by the data
  model the closed set Down, Move, Up. A C++ enumeration can hold a tag that is none of
  its enumerators (the \<^verbatim>\<open>default\<close> branch of \<^verbatim>\<open>ValidateInput\<close> is there for it):
  \<open>OutOfRange\<close> stands for such a tag.
\<close>

datatype EventType = kDown | kMove | kUp | OutOfRange nat

text \<open>
  Modelled from the spec: the class \<^verbatim>\<open>Time\<close> and the struct \<^verbatim>\<open>Input\<close> of types.h. By the
  data model an input event has a position, a scalar timestamp (a double, read by
  \<^verbatim>\<open>Value()\<close>), an event type, and the channels pressure, tilt and orientation.
\<close>

datatype Time = Time (Value: double)

record Input =
  event_type :: EventType
  position :: Vec2
  time :: Time
  pressure :: float
  tilt :: float
  orientation :: float

text \<open>
  \<^verbatim>\<open>absl::Status\<close> is \<open>error + unit\<close> and \<^verbatim>\<open>absl::StatusOr<float>\<close> is \<open>error + float\<close>:
  \<open>Inl\<close> carries the error, whose only kind here is invalid-argument, with its message.
\<close>

datatype error = InvalidArgumentError string

section \<open>Scalar bounds and interpolation (internal/utils.h)\<close>

text \<open>
  The macro \<^verbatim>\<open>M_PI\<close> of utils.h: the decimal literal of the source, a double constant,
  which is the literal rounded to binary64. \<open>TWO_PI\<close> is the expression \<^verbatim>\<open>2 * M_PI\<close>, a
  product of doubles.
\<close>

definition M_PI :: double where
  "M_PI = rnd binary64 3.14159265358979323846"

definition TWO_PI :: double where
  "TWO_PI = fmul binary64 (Fin 2) M_PI"

definition Clamp01 :: "float \<Rightarrow> float" where
  "Clamp01 value =
     (if flt value (Fin 0) then Fin 0
      else if fgt value (Fin 1) then Fin 1
      else value)"

definition Normalize01 :: "float \<Rightarrow> float \<Rightarrow> float \<Rightarrow> float" where
  "Normalize01 start end value =
     (if feq start end then (if fgt value start then Fin 1 else Fin 0)
      else Clamp01 (fdiv binary32 (fsub binary32 value start) (fsub binary32 end start)))"

text \<open>The template \<^verbatim>\<open>Interp\<close>, at the value type \<^verbatim>\<open>float\<close> that \<^verbatim>\<open>InterpAngle\<close> uses.\<close>

definition Interp :: "float \<Rightarrow> float \<Rightarrow> float \<Rightarrow> float" where
  "Interp start end interp_amount =
     fadd binary32 start (fmul binary32 (fsub binary32 end start) (Clamp01 interp_amount))"

text \<open>
  The lambda \<^verbatim>\<open>normalize_angle\<close> of \<^verbatim>\<open>InterpAngle\<close> is two while loops. Either may run
  forever, so each is a partial function into \<open>option\<close>: \<open>None\<close> is a loop that never
  exits. The variable \<^verbatim>\<open>angle\<close> is a float and \<^verbatim>\<open>2 * M_PI\<close> a double: the guard
  \<^verbatim>\<open>angle > 2 * M_PI\<close> compares the two exactly, and \<^verbatim>\<open>angle += 2 * M_PI\<close> adds in double
  arithmetic and converts the sum back to \<^verbatim>\<open>float\<close>.
\<close>

partial_function (option) add_loop :: "float \<Rightarrow> float option" where
  "add_loop angle =
     (if flt angle (Fin 0) then add_loop (to_float (fadd binary64 angle TWO_PI))
      else Some angle)"

partial_function (option) sub_loop :: "float \<Rightarrow> float option" where
  "sub_loop angle =
     (if fgt angle TWO_PI then sub_loop (to_float (fsub binary64 angle TWO_PI))
      else Some angle)"

definition normalize_angle :: "float \<Rightarrow> float option" where
  "normalize_angle angle = Option.bind (add_loop angle) sub_loop"

definition InterpAngle :: "float \<Rightarrow> float \<Rightarrow> float \<Rightarrow> float option" where
  "InterpAngle start end interp_amount =
     do {
       start1 \<leftarrow> normalize_angle start;
       end1 \<leftarrow> normalize_angle end;
       let delta = fsub binary32 end1 start1;
       let end2 = (if flt delta (fneg M_PI) then to_float (fadd binary64 end1 TWO_PI)
                   else if fgt delta M_PI then to_float (fsub binary64 end1 TWO_PI)
                   else end1);
       normalize_angle (Interp start1 end2 interp_amount)
     }"

text \<open>
  The number of iterations the two loops run: the same guards and the same steps as
  \<open>add_loop\<close> and \<open>sub_loop\<close>, counting the passes instead of returning the angle.
\<close>

partial_function (option) add_loop_iterations :: "float \<Rightarrow> nat option" where
  "add_loop_iterations angle =
     (if flt angle (Fin 0)
      then Option.bind (add_loop_iterations (to_float (fadd binary64 angle TWO_PI)))
             (\<lambda>n. Some (Suc n))
      else Some 0)"

partial_function (option) sub_loop_iterations :: "float \<Rightarrow> nat option" where
  "sub_loop_iterations angle =
     (if fgt angle TWO_PI
      then Option.bind (sub_loop_iterations (to_float (fsub binary64 angle TWO_PI)))
             (\<lambda>n. Some (Suc n))
      else Some 0)"

text \<open>
  The iterations of one call of \<open>normalize_angle\<close>, and of the three calls that
  \<open>InterpAngle\<close> makes.
\<close>

definition normalize_angle_iterations :: "float \<Rightarrow> nat option" where
  "normalize_angle_iterations angle =
     do {
       n \<leftarrow> add_loop_iterations angle;
       angle1 \<leftarrow> add_loop angle;
       m \<leftarrow> sub_loop_iterations angle1;
       Some (n + m)
     }"

definition InterpAngle_iterations :: "float \<Rightarrow> float \<Rightarrow> float \<Rightarrow> nat option" where
  "InterpAngle_iterations start end interp_amount =
     do {
       n1 \<leftarrow> normalize_angle_iterations start;
       start1 \<leftarrow> normalize_angle start;
       n2 \<leftarrow> normalize_angle_iterations end;
       end1 \<leftarrow> normalize_angle end;
       let delta = fsub binary32 end1 start1;
       let end2 = (if flt delta (fneg M_PI) then to_float (fadd binary64 end1 TWO_PI)
                   else if fgt delta M_PI then to_float (fsub binary64 end1 TWO_PI)
                   else end1);
       n3 \<leftarrow> normalize_angle_iterations (Interp start1 end2 interp_amount);
       Some (n1 + n2 + n3)
     }"

definition dot_product :: "Vec2 \<Rightarrow> Vec2 \<Rightarrow> float" where
  "dot_product lhs rhs =
     fadd binary32 (fmul binary32 (x lhs) (x rhs)) (fmul binary32 (y lhs) (y rhs))"

definition Distance :: "Vec2 \<Rightarrow> Vec2 \<Rightarrow> float" where
  "Distance start end = Magnitude (Vec2_minus end start)"

definition NearestPointOnSegment :: "Vec2 \<Rightarrow> Vec2 \<Rightarrow> Vec2 \<Rightarrow> float" where
  "NearestPointOnSegment segment_start segment_end point =
     (if Vec2_eq segment_start segment_end then Fin 0
      else
        let segment_vector = Vec2_minus segment_end segment_start;
            projection_vector = Vec2_minus point segment_start
        in Clamp01 (fdiv binary32 (dot_product projection_vector segment_vector)
                                  (dot_product segment_vector segment_vector)))"

section \<open>Vector angle and input validation (types.cc)\<close>

text \<open>
  The message of the error of \<^verbatim>\<open>AbsoluteAngleTo\<close> continues with the two vectors as
  \<^verbatim>\<open>operator<<\<close> prints them; that operator is not among the sources, and the model
  keeps the fixed prefix of the message only.
\<close>

definition AbsoluteAngleTo :: "Vec2 \<Rightarrow> Vec2 \<Rightarrow> error + float" where
  "AbsoluteAngleTo this other =
     (if \<not> IsFinite this \<or> \<not> IsFinite other
      then Inl (InvalidArgumentError ''Non-finite inputs'')
      else
        let dot = fadd binary32 (fmul binary32 (x this) (x other))
                                (fmul binary32 (y this) (y other));
            det = fsub binary32 (fmul binary32 (x this) (y other))
                                (fmul binary32 (y this) (x other))
        in Inr (fabs (atan2 det dot)))"

text \<open>
  Modelled from the spec: \<^verbatim>\<open>ValidateIsFiniteNumber\<close> of internal/validation.h, which is
  not among the sources. By the spec a value passes when it is finite (not NaN, not
  plus or minus infinity), and a violation fails with a message identifying the field:
  the message is modelled by the label the caller passes.
\<close>

definition ValidateIsFiniteNumber :: "float \<Rightarrow> string \<Rightarrow> error + unit" where
  "ValidateIsFiniteNumber value label =
     (if isfinite value then Inr () else Inl (InvalidArgumentError label))"

text \<open>The macro \<^verbatim>\<open>RETURN_IF_ERROR\<close>: the rest of the function runs only after an OK status.\<close>

definition RETURN_IF_ERROR :: "error + unit \<Rightarrow> error + unit \<Rightarrow> error + unit" where
  "RETURN_IF_ERROR expr rest = (case expr of Inl status \<Rightarrow> Inl status | Inr u \<Rightarrow> rest)"

definition ValidateInput :: "Input \<Rightarrow> error + unit" where
  "ValidateInput input =
     (let after_switch =
        RETURN_IF_ERROR (ValidateIsFiniteNumber (x (position input)) ''Input.position.x'')
       (RETURN_IF_ERROR (ValidateIsFiniteNumber (y (position input)) ''Input.position.y'')
       (RETURN_IF_ERROR (ValidateIsFiniteNumber (Value (time input)) ''Input.time'')
       (Inr ())))
      in case event_type input of
           kUp \<Rightarrow> after_switch
         | kMove \<Rightarrow> after_switch
         | kDown \<Rightarrow> after_switch
         | OutOfRange n \<Rightarrow> Inl (InvalidArgumentError ''Unknown Input.event_type.''))"

section \<open>Properties of the rounding\<close>

lemma rhe_of_int: "round_half_even (of_int m) = m"
  by (simp add: round_half_even_def)

lemma rhe_ge_floor: "\<lfloor>v\<rfloor> \<le> round_half_even v"
  by (simp add: round_half_even_def Let_def)

lemma rhe_le_floor1: "round_half_even v \<le> \<lfloor>v\<rfloor> + 1"
  by (simp add: round_half_even_def Let_def)

lemma rhe_le_int: "v \<le> of_int m \<Longrightarrow> round_half_even v \<le> m"
proof (cases "v = of_int m")
  case True
  then show ?thesis by (simp add: rhe_of_int)
next
  case False
  assume "v \<le> of_int m"
  with False have "v < of_int m" by simp
  then have "\<lfloor>v\<rfloor> < m" by (simp add: floor_less_iff)
  with rhe_le_floor1 [of v] show ?thesis by linarith
qed

lemma rhe_ge_int: "of_int m \<le> v \<Longrightarrow> m \<le> round_half_even v"
  using rhe_ge_floor [of v] by (meson le_floor_iff order_trans)

lemma rhe_mono: "v \<le> w \<Longrightarrow> round_half_even v \<le> round_half_even w"
proof (cases "\<lfloor>v\<rfloor> = \<lfloor>w\<rfloor>")
  case True
  assume "v \<le> w"
  with True show ?thesis by (auto simp add: round_half_even_def Let_def)
next
  case False
  assume "v \<le> w"
  then have "\<lfloor>v\<rfloor> \<le> \<lfloor>w\<rfloor>" by (rule floor_mono)
  with False have "\<lfloor>v\<rfloor> + 1 \<le> \<lfloor>w\<rfloor>" by simp
  with rhe_le_floor1 [of v] rhe_ge_floor [of w] show ?thesis by linarith
qed

lemma rhe_minus: "round_half_even (- v) = - round_half_even v"
proof (cases "v = of_int \<lfloor>v\<rfloor>")
  case True
  then obtain m where "v = of_int m" ..
  then show ?thesis using rhe_of_int [of "- m"] by (simp add: rhe_of_int)
next
  case False
  have le: "of_int \<lfloor>v\<rfloor> \<le> v" and d2: "v < of_int \<lfloor>v\<rfloor> + 1" by linarith+
  from le False have d1: "of_int \<lfloor>v\<rfloor> < v" by (metis less_eq_real_def)
  note d = d1 d2
  have fl: "\<lfloor>- v\<rfloor> = - \<lfloor>v\<rfloor> - 1"
  proof (rule floor_unique)
    show "of_int (- \<lfloor>v\<rfloor> - 1) \<le> - v" using d2 by linarith
    show "- v < of_int (- \<lfloor>v\<rfloor> - 1) + 1" using d1 by linarith
  qed
  show ?thesis
    unfolding round_half_even_def Let_def fl using d by (auto simp add: algebra_simps)
qed

lemma rhe_err: "\<bar>of_int (round_half_even v) - v\<bar> \<le> 1 / 2"
proof -
  have "0 \<le> v - of_int \<lfloor>v\<rfloor>" "v - of_int \<lfloor>v\<rfloor> < 1" by linarith+
  then show ?thesis by (auto simp add: round_half_even_def Let_def)
qed


lemma quantum_search_spec:
  assumes "0 < q" "0 < P"
  shows "\<exists>j\<le>n. quantum_search n P q a = 2 ^ j * q
           \<and> (j < n \<longrightarrow> a < P * (2 ^ j * q)) \<and> (0 < j \<longrightarrow> P * (2 ^ j * q) \<le> 2 * a)"
  using assms(1)
proof (induction n arbitrary: q)
  case 0
  then show ?case by simp
next
  case (Suc n)
  show ?case
  proof (cases "a < P * q")
    case True
    then show ?thesis by (intro exI [of _ 0]) simp
  next
    case False
    have "0 < 2 * q" using Suc.prems by simp
    from Suc.IH [OF this] obtain j where j: "j \<le> n"
      "quantum_search n P (2 * q) a = 2 ^ j * (2 * q)"
      "j < n \<longrightarrow> a < P * (2 ^ j * (2 * q))"
      "0 < j \<longrightarrow> P * (2 ^ j * (2 * q)) \<le> 2 * a"
      by blast
    have "P * (2 ^ Suc j * q) \<le> 2 * a"
    proof (cases "j = 0")
      case True
      with False show ?thesis by simp
    next
      case False
      with j(4) have "P * (2 ^ j * (2 * q)) \<le> 2 * a" by simp
      moreover have "0 \<le> P * (2 ^ j * (2 * q))" using assms(2) Suc.prems by simp
      ultimately show ?thesis by (simp add: algebra_simps)
    qed
    with j False show ?thesis
      by (intro exI [of _ "Suc j"]) (simp add: algebra_simps)
  qed
qed

lemma quantum_spec:
  "\<exists>j\<le>span f. quantum f v = 2 ^ j * 2 powi emin f
      \<and> (j < span f \<longrightarrow> \<bar>v\<bar> < 2 ^ prec f * quantum f v)
      \<and> (0 < j \<longrightarrow> 2 ^ prec f * quantum f v \<le> 2 * \<bar>v\<bar>)"
proof -
  have "(0::real) < 2 powi emin f" "(0::real) < 2 ^ prec f" by simp_all
  from quantum_search_spec [OF this, of "span f" "\<bar>v\<bar>"]
  show ?thesis unfolding quantum_def by (elim exE conjE, intro exI conjI) (assumption | simp only:)+
qed

lemma quantum_cases:
  obtains j where "j \<le> span f" "quantum f v = 2 ^ j * 2 powi emin f"
    "j < span f \<longrightarrow> \<bar>v\<bar> < 2 ^ prec f * quantum f v"
    "0 < j \<longrightarrow> 2 ^ prec f * quantum f v \<le> 2 * \<bar>v\<bar>"
  using quantum_spec [of f v] by (elim exE conjE) (rule that)

lemma quantum_pos: "0 < quantum f v"
proof -
  obtain j where "quantum f v = 2 ^ j * 2 powi emin f" by (rule quantum_cases)
  then show ?thesis by simp
qed

lemma quantum_minus: "quantum f (- v) = quantum f v"
  by (simp add: quantum_def)

lemma pow2_cancel:
  fixes P Q :: real
  assumes "0 < P" "0 < Q" "P * (2 ^ j * Q) < 2 * (P * (2 ^ i * Q))"
  shows "j \<le> i"
proof -
  have 1: "P * (2 ^ j * Q) = 2 ^ j * (P * Q)" by simp
  have 2: "2 * (P * (2 ^ i * Q)) = 2 ^ Suc i * (P * Q)" by simp
  have "0 < P * Q" using assms(1,2) by simp
  with assms(3) have "(2::real) ^ j < 2 ^ Suc i"
    unfolding 1 2 by (simp only: mult_less_cancel_right_pos)
  then have "j < Suc i" by (simp only: power_strict_increasing_iff one_less_numeral_iff semiring_norm)
  then show ?thesis by simp
qed

lemma quantum_eqI:
  assumes "j \<le> span f"
    and "j < span f \<longrightarrow> \<bar>v\<bar> < 2 ^ prec f * (2 ^ j * 2 powi emin f)"
    and "0 < j \<longrightarrow> 2 ^ prec f * (2 ^ j * 2 powi emin f) \<le> 2 * \<bar>v\<bar>"
  shows "quantum f v = 2 ^ j * 2 powi emin f"
proof -
  obtain i where i: "i \<le> span f" and q: "quantum f v = 2 ^ i * 2 powi emin f"
    and i3: "i < span f \<longrightarrow> \<bar>v\<bar> < 2 ^ prec f * quantum f v"
    and i4: "0 < i \<longrightarrow> 2 ^ prec f * quantum f v \<le> 2 * \<bar>v\<bar>"
    by (rule quantum_cases)
  have P: "(0::real) < 2 ^ prec f" and Q: "(0::real) < 2 powi emin f" by simp_all
  have "i \<le> j"
  proof (cases "0 < i \<and> j < span f")
    case True
    from True assms(2) have a: "\<bar>v\<bar> < 2 ^ prec f * (2 ^ j * 2 powi emin f)" by blast
    from True i4 have b: "2 ^ prec f * (2 ^ i * 2 powi emin f) \<le> 2 * \<bar>v\<bar>" unfolding q by blast
    from a b have "(2::real) ^ prec f * (2 ^ i * 2 powi emin f)
        < 2 * (2 ^ prec f * (2 ^ j * 2 powi emin f))"
      by linarith
    from pow2_cancel [OF P Q this] show ?thesis .
  next
    case False
    then show ?thesis using i by linarith
  qed
  moreover have "j \<le> i"
  proof (cases "0 < j \<and> i < span f")
    case True
    from True i3 have a: "\<bar>v\<bar> < 2 ^ prec f * (2 ^ i * 2 powi emin f)" unfolding q by blast
    from True assms(3) have b: "2 ^ prec f * (2 ^ j * 2 powi emin f) \<le> 2 * \<bar>v\<bar>" by blast
    from a b have "(2::real) ^ prec f * (2 ^ j * 2 powi emin f)
        < 2 * (2 ^ prec f * (2 ^ i * 2 powi emin f))"
      by linarith
    from pow2_cancel [OF P Q this] show ?thesis .
  next
    case False
    then show ?thesis using assms(1) by linarith
  qed
  ultimately have "i = j" by simp
  with q show ?thesis by simp
qed

lemma quantum_mono:
  assumes "\<bar>v\<bar> \<le> \<bar>w\<bar>"
  shows "\<exists>i. quantum f w = 2 ^ i * quantum f v"
proof -
  obtain j where j: "j \<le> span f" and qv: "quantum f v = 2 ^ j * 2 powi emin f"
    and j3: "j < span f \<longrightarrow> \<bar>v\<bar> < 2 ^ prec f * quantum f v"
    and j4: "0 < j \<longrightarrow> 2 ^ prec f * quantum f v \<le> 2 * \<bar>v\<bar>"
    by (rule quantum_cases)
  obtain k where k: "k \<le> span f" and qw: "quantum f w = 2 ^ k * 2 powi emin f"
    and k3: "k < span f \<longrightarrow> \<bar>w\<bar> < 2 ^ prec f * quantum f w"
    and k4: "0 < k \<longrightarrow> 2 ^ prec f * quantum f w \<le> 2 * \<bar>w\<bar>"
    by (rule quantum_cases)
  have P: "(0::real) < 2 ^ prec f" and Q: "(0::real) < 2 powi emin f" by simp_all
  have "j \<le> k"
  proof (cases "0 < j \<and> k < span f")
    case True
    from True k3 have a: "\<bar>w\<bar> < 2 ^ prec f * (2 ^ k * 2 powi emin f)" unfolding qw by blast
    from True j4 have b: "2 ^ prec f * (2 ^ j * 2 powi emin f) \<le> 2 * \<bar>v\<bar>" unfolding qv by blast
    from a b assms have "(2::real) ^ prec f * (2 ^ j * 2 powi emin f)
        < 2 * (2 ^ prec f * (2 ^ k * 2 powi emin f))"
      by linarith
    from pow2_cancel [OF P Q this] show ?thesis .
  next
    case False
    then show ?thesis using j by linarith
  qed
  then obtain i where "k = j + i" using le_Suc_ex by blast
  with qv qw have "quantum f w = 2 ^ i * quantum f v" by (simp add: power_add)
  then show ?thesis ..
qed


lemma quantum_less:
  assumes "quantum f v < quantum f w"
  shows "\<bar>v\<bar> < 2 ^ prec f * quantum f v" and "2 ^ prec f * quantum f w \<le> 2 * \<bar>w\<bar>"
    and "2 * quantum f v \<le> quantum f w"
proof -
  obtain j where j: "j \<le> span f" and qv: "quantum f v = 2 ^ j * 2 powi emin f"
    and j3: "j < span f \<longrightarrow> \<bar>v\<bar> < 2 ^ prec f * quantum f v"
    and j4: "0 < j \<longrightarrow> 2 ^ prec f * quantum f v \<le> 2 * \<bar>v\<bar>"
    by (rule quantum_cases)
  obtain k where k: "k \<le> span f" and qw: "quantum f w = 2 ^ k * 2 powi emin f"
    and k3: "k < span f \<longrightarrow> \<bar>w\<bar> < 2 ^ prec f * quantum f w"
    and k4: "0 < k \<longrightarrow> 2 ^ prec f * quantum f w \<le> 2 * \<bar>w\<bar>"
    by (rule quantum_cases)
  have Q: "(0::real) < 2 powi emin f" by simp
  from assms have "(2::real) ^ j < 2 ^ k"
    unfolding qv qw using Q by (simp only: mult_less_cancel_right_pos)
  then have jk: "j < k" by simp
  with k have "j < span f" "0 < k" by simp_all
  with j3 k4 show "\<bar>v\<bar> < 2 ^ prec f * quantum f v" "2 ^ prec f * quantum f w \<le> 2 * \<bar>w\<bar>"
    by blast+
  from jk obtain i where "k = Suc j + i" using less_iff_Suc_add by auto
  then have "quantum f w = 2 ^ i * (2 * quantum f v)" unfolding qv qw by (simp add: power_add)
  moreover have "(1::real) \<le> 2 ^ i" by simp
  ultimately show "2 * quantum f v \<le> quantum f w"
    using quantum_pos [of f v] by (simp add: mult_le_cancel_right1)
qed

lemma rval_minus: "rval f (- v) = - rval f v"
  by (simp add: rval_def quantum_minus rhe_minus)

lemma rval_zero: "rval f 0 = 0"
  using rhe_of_int [of 0] by (simp add: rval_def)

lemma rval_nonneg: "0 \<le> v \<Longrightarrow> 0 \<le> rval f v"
proof -
  assume "0 \<le> v"
  then have "of_int 0 \<le> v / quantum f v" using quantum_pos [of f v] by simp
  then have "0 \<le> round_half_even (v / quantum f v)" by (rule rhe_ge_int)
  then show ?thesis using quantum_pos [of f v] by (simp add: rval_def)
qed

lemma rval_nonpos: "v \<le> 0 \<Longrightarrow> rval f v \<le> 0"
  using rval_nonneg [of "- v" f] by (simp add: rval_minus)

lemma rval_err: "\<bar>rval f v - v\<bar> \<le> quantum f v / 2"
proof -
  have q: "0 < quantum f v" by (rule quantum_pos)
  have "rval f v - v = (of_int (round_half_even (v / quantum f v)) - v / quantum f v) * quantum f v"
    using q by (simp add: rval_def algebra_simps)
  then have "\<bar>rval f v - v\<bar> = \<bar>of_int (round_half_even (v / quantum f v)) - v / quantum f v\<bar> * quantum f v"
    using q by (simp add: abs_mult)
  also have "\<dots> \<le> 1 / 2 * quantum f v"
    using rhe_err [of "v / quantum f v"] q by (intro mult_right_mono) simp_all
  finally show ?thesis by simp
qed

lemma rval_mono_nonneg:
  assumes p: "0 < prec f" and "0 \<le> v" "v \<le> w"
  shows "rval f v \<le> rval f w"
proof -
  have "\<bar>v\<bar> \<le> \<bar>w\<bar>" using assms by simp
  then obtain i where i: "quantum f w = 2 ^ i * quantum f v" using quantum_mono by blast
  have qv: "0 < quantum f v" and qw: "0 < quantum f w" by (rule quantum_pos)+
  show ?thesis
  proof (cases "quantum f w = quantum f v")
    case True
    have "v / quantum f v \<le> w / quantum f v" using assms qv by (simp add: divide_right_mono)
    then have "round_half_even (v / quantum f v) \<le> round_half_even (w / quantum f v)"
      by (rule rhe_mono)
    then show ?thesis unfolding rval_def True using qv by (simp add: mult_right_mono)
  next
    case False
    have "(1::real) \<le> 2 ^ i" by simp
    then have "quantum f v \<le> quantum f w" unfolding i using qv by (simp add: mult_le_cancel_right1)
    with False have lt: "quantum f v < quantum f w" by simp
    note ql = quantum_less [OF lt]
    have "v / quantum f v \<le> of_int (2 ^ prec f)"
      using ql(1) assms(2) qv by (simp add: pos_divide_le_eq)
    then have "round_half_even (v / quantum f v) \<le> 2 ^ prec f" by (rule rhe_le_int)
    then have "real_of_int (round_half_even (v / quantum f v)) \<le> 2 ^ prec f"
      by (metis of_int_le_iff of_int_numeral of_int_power)
    then have 1: "rval f v \<le> 2 ^ prec f * quantum f v"
      unfolding rval_def using qv by (simp add: mult_right_mono)
    obtain p' where p': "prec f = Suc p'" using p by (cases "prec f") simp_all
    have "2 ^ prec f * quantum f w \<le> 2 * w" using ql(2) assms by simp
    then have "of_int (2 ^ p') \<le> w / quantum f w"
      using qw by (simp add: p' pos_le_divide_eq)
    then have "2 ^ p' \<le> round_half_even (w / quantum f w)" by (rule rhe_ge_int)
    then have "(2::real) ^ p' \<le> real_of_int (round_half_even (w / quantum f w))"
      by (metis of_int_le_iff of_int_numeral of_int_power)
    then have "2 ^ p' * quantum f w \<le> rval f w"
      unfolding rval_def using qw by (simp add: mult_right_mono)
    moreover have "2 ^ prec f * quantum f v \<le> 2 ^ p' * quantum f w"
      using ql(3) by (simp add: p')
    ultimately show ?thesis using 1 by linarith
  qed
qed

lemma rval_mono:
  assumes p: "0 < prec f" and "v \<le> w"
  shows "rval f v \<le> rval f w"
proof -
  consider "0 \<le> v" | "w \<le> 0" | "v \<le> 0" "0 \<le> w" by linarith
  then show ?thesis
  proof cases
    case 1
    with assms show ?thesis by (simp add: rval_mono_nonneg)
  next
    case 2
    with assms have "rval f (- w) \<le> rval f (- v)" by (intro rval_mono_nonneg) simp_all
    then show ?thesis by (simp add: rval_minus)
  next
    case 3
    then show ?thesis using rval_nonneg [of w f] rval_nonpos [of v f] by linarith
  qed
qed

lemma rval_fix:
  assumes v: "v = of_int m * (2 ^ k * 2 powi emin f)" and m: "\<bar>m\<bar> < 2 ^ prec f" and k: "k \<le> span f"
  shows "rval f v = v"
proof -
  obtain j where j: "j \<le> span f" and q: "quantum f v = 2 ^ j * 2 powi emin f"
    and j3: "j < span f \<longrightarrow> \<bar>v\<bar> < 2 ^ prec f * quantum f v"
    and j4: "0 < j \<longrightarrow> 2 ^ prec f * quantum f v \<le> 2 * \<bar>v\<bar>"
    by (rule quantum_cases)
  have P: "(0::real) < 2 ^ prec f" and Q: "(0::real) < 2 powi emin f" by simp_all
  have "j \<le> k"
  proof (cases "0 < j")
    case False
    then show ?thesis by simp
  next
    case True
    with j4 have "2 ^ prec f * (2 ^ j * 2 powi emin f) \<le> 2 * \<bar>v\<bar>" unfolding q by blast
    moreover have "\<bar>v\<bar> = \<bar>real_of_int m\<bar> * (2 ^ k * 2 powi emin f)"
      unfolding v by (simp add: abs_mult)
    moreover have "\<bar>real_of_int m\<bar> < 2 ^ prec f"
      using m by (metis of_int_abs of_int_less_iff of_int_numeral of_int_power)
    then have "\<bar>real_of_int m\<bar> * (2 ^ k * 2 powi emin f) < 2 ^ prec f * (2 ^ k * 2 powi emin f)"
      by (intro mult_strict_right_mono) simp_all
    ultimately have "(2::real) ^ prec f * (2 ^ j * 2 powi emin f)
        < 2 * (2 ^ prec f * (2 ^ k * 2 powi emin f))"
      by linarith
    from pow2_cancel [OF P Q this] show ?thesis .
  qed
  then obtain i where i: "k = j + i" using le_Suc_ex by blast
  have vq: "v = of_int (m * 2 ^ i) * quantum f v"
    unfolding q using v i by (simp add: power_add)
  have "v / quantum f v = of_int (m * 2 ^ i)"
    using quantum_pos [of f v] by (subst vq) simp
  then have "round_half_even (v / quantum f v) = m * 2 ^ i" by (simp only: rhe_of_int)
  then show ?thesis
    unfolding rval_def using vq by simp
qed


section \<open>Rounded values\<close>

lemma overflow_threshold_eq:
  "overflow_threshold f = 2 ^ prec f * (2 ^ span f * 2 powi emin f)"
  unfolding overflow_threshold_def by (simp add: power_int_add)

lemma rval_ge_threshold:
  assumes "overflow_threshold f \<le> v"
  shows "overflow_threshold f \<le> rval f v"
proof -
  obtain j where j: "j \<le> span f" "quantum f v = 2 ^ j * 2 powi emin f"
    "j < span f \<longrightarrow> \<bar>v\<bar> < 2 ^ prec f * quantum f v"
    "0 < j \<longrightarrow> 2 ^ prec f * quantum f v \<le> 2 * \<bar>v\<bar>"
    by (rule quantum_cases)
  have Q: "(0::real) < 2 powi emin f" by simp
  have "j = span f"
  proof (rule ccontr)
    assume "j \<noteq> span f"
    with j(1) have lt: "j < span f" by simp
    with j(3) have "\<bar>v\<bar> < 2 ^ prec f * quantum f v" by simp
    moreover have "(2::real) ^ j \<le> 2 ^ span f" using j(1) by simp
    then have "quantum f v \<le> 2 ^ span f * 2 powi emin f"
      unfolding j(2) using Q by (simp add: mult_right_mono)
    then have "2 ^ prec f * quantum f v \<le> overflow_threshold f"
      unfolding overflow_threshold_eq by (simp add: mult_left_mono)
    ultimately show False using assms by linarith
  qed
  then have q: "quantum f v = 2 ^ span f * 2 powi emin f" using j(2) by simp
  have qpos: "0 < quantum f v" by (rule quantum_pos)
  have "2 ^ prec f * quantum f v \<le> v"
    using assms unfolding overflow_threshold_eq q .
  then have "of_int (2 ^ prec f) \<le> v / quantum f v"
    using qpos by (simp add: pos_le_divide_eq)
  then have "2 ^ prec f \<le> round_half_even (v / quantum f v)" by (rule rhe_ge_int)
  then have "(2::real) ^ prec f \<le> of_int (round_half_even (v / quantum f v))"
    by (metis of_int_le_iff of_int_numeral of_int_power)
  then have "2 ^ prec f * quantum f v \<le> of_int (round_half_even (v / quantum f v)) * quantum f v"
    using qpos by (simp add: mult_right_mono)
  then show ?thesis unfolding rval_def overflow_threshold_eq q .
qed

lemma rnd_overflow:
  assumes "overflow_threshold f \<le> \<bar>v\<bar>"
  shows "rnd f v = inf_of (v < 0)"
proof -
  have "overflow_threshold f \<le> \<bar>rval f v\<bar>"
  proof (cases "0 \<le> v")
    case True
    then have "overflow_threshold f \<le> rval f v" using assms by (simp add: rval_ge_threshold)
    then show ?thesis by linarith
  next
    case False
    then have "overflow_threshold f \<le> rval f (- v)" using assms by (simp add: rval_ge_threshold)
    then show ?thesis unfolding rval_minus by linarith
  qed
  then show ?thesis by (simp add: rnd_def)
qed

lemma rnd_Fin:
  assumes "rval f v = v" and "v \<noteq> 0" and "\<bar>v\<bar> < overflow_threshold f"
  shows "rnd f v = Fin v"
  using assms by (simp add: rnd_def)

lemma rval_dyadic:
  assumes "\<bar>m\<bar> < 2 ^ prec f" and "emin f \<le> e" and "e \<le> emin f + int (span f)"
  shows "rval f (of_int m * 2 powi e) = of_int m * 2 powi e"
proof -
  define k where "k = nat (e - emin f)"
  have k: "k \<le> span f" using assms(2,3) by (simp add: k_def)
  have "e = emin f + int k" using assms(2) by (simp add: k_def)
  then have "(2::real) powi e = 2 ^ k * 2 powi emin f" by (simp add: power_int_add)
  then have "of_int m * 2 powi e = (of_int m :: real) * (2 ^ k * 2 powi emin f)" by simp
  then show ?thesis using assms(1) k by (rule rval_fix)
qed

lemma overflow_threshold_binary32: "overflow_threshold binary32 = 2 ^ 128"
  by (simp add: overflow_threshold_def binary32_def)

lemma overflow_threshold_binary64: "overflow_threshold binary64 = 2 ^ 1024"
  by (simp add: overflow_threshold_def binary64_def)

lemma rval_binary32:
  assumes "\<bar>m\<bar> < 2 ^ 24" and "- 149 \<le> e" and "e \<le> 104"
  shows "rval binary32 (of_int m * 2 powi e) = of_int m * 2 powi e"
  by (rule rval_dyadic) (use assms in \<open>simp_all add: binary32_def\<close>)

lemma rval_binary64:
  assumes "\<bar>m\<bar> < 2 ^ 53" and "- 1074 \<le> e" and "e \<le> 971"
  shows "rval binary64 (of_int m * 2 powi e) = of_int m * 2 powi e"
  by (rule rval_dyadic) (use assms in \<open>simp_all add: binary64_def\<close>)

lemma rval_binary32_int: "\<bar>m\<bar> < 2 ^ 24 \<Longrightarrow> rval binary32 (of_int m) = of_int m"
  using rval_binary32 [of m 0] by simp

lemma rval_binary64_int: "\<bar>m\<bar> < 2 ^ 53 \<Longrightarrow> rval binary64 (of_int m) = of_int m"
  using rval_binary64 [of m 0] by simp

lemma rnd_binary32_int:
  assumes "\<bar>m\<bar> < 2 ^ 24" and "m \<noteq> 0"
  shows "rnd binary32 (of_int m) = Fin (of_int m)"
proof (rule rnd_Fin)
  show "rval binary32 (of_int m) = of_int m" using assms(1) by (rule rval_binary32_int)
  show "(of_int m :: real) \<noteq> 0" using assms(2) by simp
  have "\<bar>of_int m :: real\<bar> < 2 ^ 24" using assms(1)
    by (metis of_int_abs of_int_less_iff of_int_numeral of_int_power)
  also have "(2::real) ^ 24 < 2 ^ 128" by simp
  finally show "\<bar>of_int m :: real\<bar> < overflow_threshold binary32"
    unfolding overflow_threshold_binary32 .
qed

text \<open>The rounding is monotone, and it keeps a bound that is a value of the format.\<close>

lemma rval_le:
  assumes "0 < prec f" and "v \<le> a" and "rval f a = a"
  shows "rval f v \<le> a"
  using rval_mono [OF assms(1,2)] assms(3) by simp

lemma rval_ge:
  assumes "0 < prec f" and "a \<le> v" and "rval f a = a"
  shows "a \<le> rval f v"
  using rval_mono [OF assms(1,2)] assms(3) by simp

lemma prec_pos [simp]: "0 < prec binary32" "0 < prec binary64"
  by (simp_all add: binary32_def binary64_def)

section \<open>Comparison\<close>

lemma flt_Fin [simp]: "flt (Fin a) (Fin b) = (a < b)"
  by (simp add: flt_def)

lemma flt_NaN [simp]: "flt NaN b = False" "flt a NaN = False"
  by (simp_all add: flt_def)

lemma flt_zero: "flt v (Fin 0) = (v = NInf \<or> (\<exists>r. v = Fin r \<and> r < 0))"
  by (cases v) (simp_all add: flt_def)

lemma flt_one: "flt (Fin 1) v = (v = PInf \<or> (\<exists>r. v = Fin r \<and> 1 < r))"
  by (cases v) (simp_all add: flt_def)

lemma feq_Fin [simp]: "feq (Fin a) (Fin b) = (a = b)"
  by (simp add: feq_def)

lemma feq_NaN [simp]: "feq NaN b = False" "feq a NaN = False"
  by (simp_all add: feq_def)

lemma feq_refl: "feq v v = (\<not> isnan v)"
  by (cases v) (simp_all add: feq_def)

lemma fle_Fin [simp]: "fle (Fin a) (Fin b) = (a \<le> b)"
  by (auto simp add: fle_def)

lemma fle_NaN [simp]: "fle NaN b = False" "fle a NaN = False"
  by (simp_all add: fle_def)

lemma fle_finite:
  "isfinite a \<Longrightarrow> isfinite b \<Longrightarrow> fle a b = (fval a \<le> fval b)"
  by (cases a; cases b) (auto simp add: fle_def flt_def feq_def)

lemma flt_finite:
  "isfinite a \<Longrightarrow> isfinite b \<Longrightarrow> flt a b = (fval a < fval b)"
  by (cases a; cases b) (auto simp add: flt_def)

lemma feq_finite:
  "isfinite a \<Longrightarrow> isfinite b \<Longrightarrow> feq a b = (fval a = fval b)"
  by (cases a; cases b) (auto simp add: feq_def)

section \<open>Clamp01\<close>

lemma Clamp01_Fin: "Clamp01 (Fin r) = Fin (max 0 (min 1 r))"
  by (simp add: Clamp01_def fgt_def)

lemma Clamp01_specials:
  "Clamp01 PInf = Fin 1" "Clamp01 NInf = Fin 0" "Clamp01 NaN = NaN" "Clamp01 NegZero = NegZero"
  by (simp_all add: Clamp01_def fgt_def flt_def)

lemma Clamp01_cases:
  "Clamp01 v = NaN \<and> v = NaN \<or> Clamp01 v = NegZero \<and> v = NegZero
   \<or> (\<exists>r. Clamp01 v = Fin r \<and> 0 \<le> r \<and> r \<le> 1)"
  by (cases v) (simp_all add: Clamp01_Fin Clamp01_specials)

lemma Clamp01_range: "isnan (Clamp01 v) \<or> (fle (Fin 0) (Clamp01 v) \<and> fle (Clamp01 v) (Fin 1))"
  using Clamp01_cases [of v] by (auto simp add: fle_def flt_def feq_def)

lemma Clamp01_isnan: "isnan (Clamp01 v) = isnan v"
  by (cases v) (simp_all add: Clamp01_Fin Clamp01_specials)

text \<open>
  C9. \<open>Clamp01\<close> is idempotent on every value: clamping twice returns the value that
  clamping once returns, and unless the input is NaN the two also compare equal as
  floats (NaN compares unequal to itself). On a finite value the result lies in
  \<open>[0, 1]\<close>. NaN fails both comparisons and is returned as it came.
\<close>

theorem Clamp01_idempotent:
  "Clamp01 (Clamp01 v) = Clamp01 v
   \<and> (\<not> isnan v \<longrightarrow> feq (Clamp01 (Clamp01 v)) (Clamp01 v))
   \<and> (isfinite v \<longrightarrow> fle (Fin 0) (Clamp01 v) \<and> fle (Clamp01 v) (Fin 1))
   \<and> \<not> flt NaN (Fin 0) \<and> \<not> fgt NaN (Fin 1) \<and> Clamp01 NaN = NaN"
  by (cases v) (auto simp add: Clamp01_Fin Clamp01_specials fgt_def fle_def flt_def feq_def max_def min_def)

theorem Clamp01_idempotent_witness:
  "isfinite (Fin 3) \<and> \<not> isnan (Fin 3) \<and> Clamp01 (Clamp01 (Fin 3)) = Clamp01 (Fin 3)
   \<and> feq (Clamp01 (Clamp01 (Fin 3))) (Clamp01 (Fin 3))
   \<and> fle (Fin 0) (Clamp01 (Fin 3)) \<and> fle (Clamp01 (Fin 3)) (Fin 1)"
  using Clamp01_idempotent [of "Fin 3"] by (simp add: Clamp01_Fin)


section \<open>ValidateInput\<close>

lemma RETURN_IF_ERROR_simps:
  "RETURN_IF_ERROR (Inl e) rest = Inl e"
  "RETURN_IF_ERROR (Inr u) rest = rest"
  by (simp_all add: RETURN_IF_ERROR_def)

text \<open>The examples of the spec: a well-formed event, an out-of-range tag, NaN, infinity.\<close>

lemma ValidateInput_examples:
  "ValidateInput \<lparr>event_type = kDown, position = \<lparr>x = Fin 1, y = Fin 1\<rparr>, time = Time (Fin 0),
      pressure = NaN, tilt = PInf, orientation = Fin (- 1)\<rparr> = Inr ()"
  "ValidateInput \<lparr>event_type = OutOfRange 7, position = \<lparr>x = NaN, y = Fin 1\<rparr>,
      time = Time (Fin 0), pressure = Fin 0, tilt = Fin 0, orientation = Fin 0\<rparr>
     = Inl (InvalidArgumentError ''Unknown Input.event_type.'')"
  "ValidateInput \<lparr>event_type = kMove, position = \<lparr>x = NaN, y = PInf\<rparr>, time = Time PInf,
      pressure = Fin 0, tilt = Fin 0, orientation = Fin 0\<rparr>
     = Inl (InvalidArgumentError ''Input.position.x'')"
  "ValidateInput \<lparr>event_type = kUp, position = \<lparr>x = Fin 1, y = Fin 1\<rparr>, time = Time PInf,
      pressure = Fin 0, tilt = Fin 0, orientation = Fin 0\<rparr>
     = Inl (InvalidArgumentError ''Input.time'')"
  by (simp_all add: ValidateInput_def ValidateIsFiniteNumber_def RETURN_IF_ERROR_simps Let_def)

text \<open>
  C1. \<open>ValidateInput\<close> returns OK exactly when the event type is Down, Move or Up and
  \<open>position.x\<close>, \<open>position.y\<close> and \<open>time\<close> are finite. Otherwise it returns the
  invalid-argument error of the first check that fails, in the order event type,
  \<open>position.x\<close>, \<open>position.y\<close>, \<open>time\<close>. Pressure, tilt and orientation have no
  influence on the result.
\<close>

theorem ValidateInput_spec:
  "ValidateInput input =
     (if event_type input \<notin> {kDown, kMove, kUp}
        then Inl (InvalidArgumentError ''Unknown Input.event_type.'')
      else if \<not> isfinite (x (position input))
        then Inl (InvalidArgumentError ''Input.position.x'')
      else if \<not> isfinite (y (position input))
        then Inl (InvalidArgumentError ''Input.position.y'')
      else if \<not> isfinite (Value (time input))
        then Inl (InvalidArgumentError ''Input.time'')
      else Inr ())
   \<and> ((ValidateInput input = Inr ()) =
        (event_type input \<in> {kDown, kMove, kUp} \<and> isfinite (x (position input))
         \<and> isfinite (y (position input)) \<and> isfinite (Value (time input))))
   \<and> ValidateInput (input\<lparr>pressure := p, tilt := t, orientation := ori\<rparr>) = ValidateInput input"
  by (cases "event_type input")
     (simp_all add: ValidateInput_def ValidateIsFiniteNumber_def RETURN_IF_ERROR_simps Let_def)


section \<open>Arithmetic on finite values\<close>

lemma fadd_Fin: "fadd f (Fin a) (Fin b) = (if a + b = 0 then Fin 0 else rnd f (a + b))"
  by (simp add: fadd_def zero_of_def)

lemma fsub_Fin: "fsub f (Fin a) (Fin b) = (if a - b = 0 then Fin 0 else rnd f (a - b))"
  by (simp add: fsub_def fadd_def zero_of_def)

lemma fmul_Fin:
  "fmul f (Fin a) (Fin b) =
     (if a * b = 0 then zero_of ((a < 0) \<noteq> (b < 0)) else rnd f (a * b))"
  by (simp add: fmul_def)

lemma fdiv_Fin:
  "fdiv f (Fin a) (Fin b) =
     (if b = 0 then (if a = 0 then NaN else inf_of (a < 0))
      else if a = 0 then zero_of (b < 0)
      else rnd f (a / b))"
  by (simp add: fdiv_def)

lemma rnd_binary32_dyadic:
  assumes "\<bar>m\<bar> < 2 ^ 24" and "m \<noteq> 0" and "- 149 \<le> e" and "e \<le> 104"
  shows "rnd binary32 (of_int m * 2 powi e) = Fin (of_int m * 2 powi e)"
proof (rule rnd_Fin)
  show "rval binary32 (of_int m * 2 powi e) = of_int m * 2 powi e"
    using assms(1,3,4) by (rule rval_binary32)
  show "(of_int m :: real) * 2 powi e \<noteq> 0" using assms(2) by simp
  have m: "\<bar>of_int m :: real\<bar> < 2 ^ 24" using assms(1)
    by (metis of_int_abs of_int_less_iff of_int_numeral of_int_power)
  have "(2::real) powi e \<le> 2 powi 104" using assms(4) by (intro power_int_increasing) simp_all
  then have e: "(2::real) powi e \<le> 2 ^ 104" by simp
  have "\<bar>of_int m * 2 powi e :: real\<bar> = \<bar>of_int m\<bar> * 2 powi e" by (simp add: abs_mult)
  also have "\<dots> < 2 ^ 24 * 2 ^ 104"
    using m e by (intro mult_less_le_imp_less) simp_all
  also have "\<dots> = (2::real) ^ 128" by simp
  finally show "\<bar>of_int m * 2 powi e :: real\<bar> < overflow_threshold binary32"
    unfolding overflow_threshold_binary32 .
qed

lemma rnd_binary32_values:
  "rnd binary32 1 = Fin 1" "rnd binary32 2 = Fin 2" "rnd binary32 3 = Fin 3"
  "rnd binary32 4 = Fin 4" "rnd binary32 5 = Fin 5" "rnd binary32 9 = Fin 9"
  "rnd binary32 10 = Fin 10" "rnd binary32 15 = Fin 15" "rnd binary32 16 = Fin 16"
  "rnd binary32 25 = Fin 25" "rnd binary32 50 = Fin 50" "rnd binary32 100 = Fin 100"
  "rnd binary32 (- 1) = Fin (- 1)" "rnd binary32 (- 5) = Fin (- 5)"
  "rnd binary32 (1 / 2) = Fin (1 / 2)" "rnd binary32 (- (1 / 2)) = Fin (- (1 / 2))"
  "rnd binary32 (3 / 2) = Fin (3 / 2)"
  using rnd_binary32_int [of 1] rnd_binary32_int [of 2] rnd_binary32_int [of 3]
    rnd_binary32_int [of 4] rnd_binary32_int [of 5] rnd_binary32_int [of 9]
    rnd_binary32_int [of 10] rnd_binary32_int [of 15] rnd_binary32_int [of 16]
    rnd_binary32_int [of 25] rnd_binary32_int [of 50] rnd_binary32_int [of 100]
    rnd_binary32_int [of "- 1"] rnd_binary32_int [of "- 5"]
    rnd_binary32_dyadic [of 1 "- 1"] rnd_binary32_dyadic [of "- 1" "- 1"]
    rnd_binary32_dyadic [of 3 "- 1"]
  by simp_all

lemma rnd_binary32_overflow: "2 ^ 128 \<le> \<bar>v\<bar> \<Longrightarrow> rnd binary32 v = inf_of (v < 0)"
  by (rule rnd_overflow) (simp add: overflow_threshold_binary32)

lemma rnd_binary32_pow2:
  "- 149 \<le> e \<Longrightarrow> e \<le> 127 \<Longrightarrow> rnd binary32 (2 powi e) = Fin (2 powi e)"
proof -
  assume e: "- 149 \<le> e" "e \<le> 127"
  show ?thesis
  proof (cases "e \<le> 104")
    case True
    then show ?thesis using rnd_binary32_dyadic [of 1 e] e by simp
  next
    case False
    have "(2::real) powi (23 + (e - 23)) = 2 powi 23 * 2 powi (e - 23)"
      by (rule power_int_add) simp
    then have "(2::real) powi e = of_int (2 ^ 23) * 2 powi (e - 23)" by simp
    moreover have "rnd binary32 (of_int (2 ^ 23) * 2 powi (e - 23))
        = Fin (of_int (2 ^ 23) * 2 powi (e - 23))"
      using False e by (intro rnd_binary32_dyadic) simp_all
    ultimately show ?thesis by simp
  qed
qed

section \<open>Normalize01\<close>

text \<open>The examples of the spec, in float arithmetic.\<close>

lemma Normalize01_examples:
  "Normalize01 (Fin 0) (Fin 10) (Fin 5) = Fin 0.5"
  "Normalize01 (Fin 0) (Fin 10) (Fin (- 5)) = Fin 0"
  "Normalize01 (Fin 0) (Fin 10) (Fin 15) = Fin 1"
  "Normalize01 (Fin 5) (Fin 5) (Fin 6) = Fin 1"
  "Normalize01 (Fin 5) (Fin 5) (Fin 4) = Fin 0"
  by (simp_all add: Normalize01_def fsub_Fin fdiv_Fin rnd_binary32_values Clamp01_Fin fgt_def)

text \<open>
  C6, as stated, fails: the claim ranges over every start, end and value, and with a NaN
  value the quotient is NaN, which \<open>Clamp01\<close> returns as it came. The result is not a
  scalar of \<open>[0, 1]\<close>.
\<close>

theorem Normalize01_NaN_counterexample:
  "Normalize01 (Fin 0) (Fin 1) NaN = NaN
   \<and> \<not> fle (Fin 0) (Normalize01 (Fin 0) (Fin 1) NaN)
   \<and> \<not> fle (Normalize01 (Fin 0) (Fin 1) NaN) (Fin 1)"
  by (simp add: Normalize01_def fsub_def fadd_def fdiv_def Clamp01_specials)

text \<open>
  Finite inputs can give NaN too: the differences \<open>2^127 - (-2^127)\<close> of the numerator
  and of the denominator both overflow to infinity, and their quotient is NaN.
\<close>

lemma Normalize01_overflow:
  "Normalize01 (Fin (- (2 ^ 127))) (Fin (2 ^ 127)) (Fin (2 ^ 127)) = NaN"
proof -
  have "rnd binary32 (2 ^ 127 + 2 ^ 127) = PInf"
    using rnd_binary32_overflow [of "2 ^ 127 + 2 ^ 127"] by (simp add: inf_of_def)
  then show ?thesis
    by (simp add: Normalize01_def fsub_Fin fdiv_def Clamp01_specials)
qed

lemma Normalize01_range:
  "isnan (Normalize01 start end value)
   \<or> (fle (Fin 0) (Normalize01 start end value) \<and> fle (Normalize01 start end value) (Fin 1))"
  using Clamp01_range [of "fdiv binary32 (fsub binary32 value start) (fsub binary32 end start)"]
  by (simp add: Normalize01_def)

text \<open>
  C6, amended. For every start, end and value \<open>Normalize01\<close> returns: with
  \<open>start == end\<close> it returns 1 if \<open>value > start\<close> and 0 otherwise, and with
  \<open>start != end\<close> it returns the float quotient \<open>(value - start) / (end - start)\<close>
  clamped by \<open>Clamp01\<close>. The result is a scalar of \<open>[0, 1]\<close> or NaN, and it is NaN exactly
  when \<open>start != end\<close> and that quotient is NaN.
\<close>

theorem Normalize01_total:
  "Normalize01 start end value =
     (if feq start end then (if fgt value start then Fin 1 else Fin 0)
      else Clamp01 (fdiv binary32 (fsub binary32 value start) (fsub binary32 end start)))
   \<and> (isnan (Normalize01 start end value)
       \<or> (fle (Fin 0) (Normalize01 start end value) \<and> fle (Normalize01 start end value) (Fin 1)))
   \<and> isnan (Normalize01 start end value) =
       (\<not> feq start end
        \<and> isnan (fdiv binary32 (fsub binary32 value start) (fsub binary32 end start)))"
  using Normalize01_range [of start "end" "value"]
  by (simp add: Normalize01_def Clamp01_isnan)


section \<open>NearestPointOnSegment\<close>

lemma rnd_underflow:
  assumes "\<bar>v\<bar> < 2 powi emin f / 2"
  shows "rnd f v = zero_of (v < 0)"
proof -
  obtain j where j: "j \<le> span f" "quantum f v = 2 ^ j * 2 powi emin f"
    "j < span f \<longrightarrow> \<bar>v\<bar> < 2 ^ prec f * quantum f v"
    "0 < j \<longrightarrow> 2 ^ prec f * quantum f v \<le> 2 * \<bar>v\<bar>"
    by (rule quantum_cases)
  have Q: "(0::real) < 2 powi emin f" by simp
  have one: "(1::real) \<le> 2 ^ j" "(1::real) \<le> 2 ^ prec f" by simp_all
  have "1 * 2 powi emin f \<le> (2::real) ^ j * 2 powi emin f"
    using one(1) Q by (intro mult_right_mono) simp_all
  then have "2 powi emin f \<le> (2::real) ^ j * 2 powi emin f" by simp
  then have qge: "2 powi emin f \<le> quantum f v" unfolding j(2) .
  have qpos: "0 < quantum f v" by (rule quantum_pos)
  have "1 * quantum f v \<le> 2 ^ prec f * quantum f v"
    using one(2) qpos by (intro mult_right_mono) simp_all
  then have "quantum f v \<le> 2 ^ prec f * quantum f v" by simp
  then have "\<not> 2 ^ prec f * quantum f v \<le> 2 * \<bar>v\<bar>" using assms qge by linarith
  then have "j = 0" using j(4) by auto
  then have q: "quantum f v = 2 powi emin f" using j(2) by simp
  have "\<bar>v / quantum f v\<bar> < 1 / 2"
    using assms Q unfolding q by (simp add: abs_divide pos_divide_less_eq)
  moreover have "\<bar>of_int (round_half_even (v / quantum f v)) - v / quantum f v\<bar> \<le> 1 / 2"
    by (rule rhe_err)
  ultimately have "\<bar>of_int (round_half_even (v / quantum f v)) :: real\<bar> < 1" by linarith
  then have "round_half_even (v / quantum f v) = 0"
    by (metis abs_zero of_int_abs of_int_eq_0_iff of_int_less_1_iff zabs_less_one_iff)
  then have "rval f v = 0" by (simp add: rval_def)
  moreover have "0 < overflow_threshold f" unfolding overflow_threshold_eq by simp
  ultimately show ?thesis by (simp add: rnd_def)
qed

text \<open>The examples of the spec, in float arithmetic.\<close>

lemma NearestPointOnSegment_examples:
  "NearestPointOnSegment \<lparr>x = Fin 0, y = Fin 0\<rparr> \<lparr>x = Fin 10, y = Fin 0\<rparr>
      \<lparr>x = Fin 5, y = Fin 5\<rparr> = Fin 0.5"
  "NearestPointOnSegment \<lparr>x = Fin 3, y = Fin 3\<rparr> \<lparr>x = Fin 3, y = Fin 3\<rparr>
      \<lparr>x = Fin 9, y = Fin 9\<rparr> = Fin 0"
  by (simp_all add: NearestPointOnSegment_def Vec2_eq_def Vec2_minus_def dot_product_def
        fsub_Fin fmul_Fin fadd_Fin fdiv_Fin rnd_binary32_values zero_of_def Clamp01_Fin)

text \<open>
  C5, as stated, fails: the claim ranges over every segment and point, and a point with a
  NaN coordinate makes the quotient NaN, which \<open>Clamp01\<close> returns as it came.
\<close>

theorem NearestPointOnSegment_NaN_counterexample:
  "NearestPointOnSegment \<lparr>x = Fin 0, y = Fin 0\<rparr> \<lparr>x = Fin 1, y = Fin 0\<rparr>
      \<lparr>x = NaN, y = Fin 0\<rparr> = NaN
   \<and> \<not> fle (Fin 0) NaN \<and> \<not> fle NaN (Fin 1)"
  by (simp add: NearestPointOnSegment_def Vec2_eq_def Vec2_minus_def dot_product_def fsub_def
        fadd_def fmul_def fdiv_def Clamp01_specials)

text \<open>
  Finite inputs can give NaN too: for the segment from \<open>(0, 0)\<close> to \<open>(2^-80, 0)\<close> the
  squared length \<open>2^-160\<close> underflows to zero, and so does the numerator at the point
  \<open>(2^-80, 0)\<close>: the quotient is \<open>0 / 0\<close>.
\<close>

lemma NearestPointOnSegment_underflow:
  "NearestPointOnSegment \<lparr>x = Fin 0, y = Fin 0\<rparr> \<lparr>x = Fin (2 powi (- 80)), y = Fin 0\<rparr>
      \<lparr>x = Fin (2 powi (- 80)), y = Fin 0\<rparr> = NaN"
proof -
  have a: "rnd binary32 (2 powi (- 80)) = Fin (2 powi (- 80))"
    by (rule rnd_binary32_pow2) simp_all
  have "\<bar>2 powi (- 80) * 2 powi (- 80) :: real\<bar> < 2 powi emin binary32 / 2"
    by (simp add: binary32_def)
  then have b: "rnd binary32 (2 powi (- 80) * 2 powi (- 80)) = Fin 0"
    using rnd_underflow [of "2 powi (- 80) * 2 powi (- 80)" binary32]
    by (simp add: zero_of_def)
  have nz: "(2::real) powi (- 80) \<noteq> 0" "0 \<noteq> (2::real) powi (- 80)" by simp_all
  show ?thesis
    using nz
    by (simp only: NearestPointOnSegment_def Vec2_eq_def Vec2_minus_def dot_product_def
          fsub_Fin fmul_Fin fadd_Fin fdiv_Fin a b zero_of_def Clamp01_specials Let_def
          Vec2.simps feq_Fin diff_zero mult_zero_left mult_zero_right add_0_right
          mult_eq_0_iff simp_thms if_True if_False less_irrefl float.simps)
qed

lemma NearestPointOnSegment_range:
  "isnan (NearestPointOnSegment segment_start segment_end point)
   \<or> (fle (Fin 0) (NearestPointOnSegment segment_start segment_end point)
      \<and> fle (NearestPointOnSegment segment_start segment_end point) (Fin 1))"
  using Clamp01_range
  by (simp add: NearestPointOnSegment_def Let_def)

text \<open>
  C5, amended. For every segment and point \<open>NearestPointOnSegment\<close> returns: with
  \<open>segStart == segEnd\<close> it returns 0, and otherwise it returns the float quotient
  \<open>dot(point - segStart, segEnd - segStart) / dot(segEnd - segStart, segEnd - segStart)\<close>
  clamped by \<open>Clamp01\<close>. The result is a scalar of \<open>[0, 1]\<close> or NaN, and it is NaN exactly
  when \<open>segStart != segEnd\<close> and that quotient is NaN.
\<close>

theorem NearestPointOnSegment_total:
  "NearestPointOnSegment segment_start segment_end point =
     (if Vec2_eq segment_start segment_end then Fin 0
      else Clamp01 (fdiv binary32
             (dot_product (Vec2_minus point segment_start) (Vec2_minus segment_end segment_start))
             (dot_product (Vec2_minus segment_end segment_start)
                          (Vec2_minus segment_end segment_start))))
   \<and> (isnan (NearestPointOnSegment segment_start segment_end point)
       \<or> (fle (Fin 0) (NearestPointOnSegment segment_start segment_end point)
          \<and> fle (NearestPointOnSegment segment_start segment_end point) (Fin 1)))
   \<and> isnan (NearestPointOnSegment segment_start segment_end point) =
       (\<not> Vec2_eq segment_start segment_end
        \<and> isnan (fdiv binary32
             (dot_product (Vec2_minus point segment_start) (Vec2_minus segment_end segment_start))
             (dot_product (Vec2_minus segment_end segment_start)
                          (Vec2_minus segment_end segment_start))))"
  using NearestPointOnSegment_range [of segment_start segment_end point]
  by (simp add: NearestPointOnSegment_def Clamp01_isnan Let_def)


section \<open>AbsoluteAngleTo\<close>

subsection \<open>The library function atan2\<close>

lemma fneg_class [simp]:
  "isnan (fneg v) = isnan v" "isinf (fneg v) = isinf v" "iszero (fneg v) = iszero v"
  "isfinite (fneg v) = isfinite v" "\<bar>fval (fneg v)\<bar> = \<bar>fval v\<bar>" "fabs (fneg v) = fabs v"
  "fval (fneg v) = - fval v"
  by (cases v; simp)+

lemma atan2_real_examples:
  "atan2_real 1 0 = pi / 2" "atan2_real 0 0 = 0" "atan2_real 0 (- 1) = pi" "atan2_real 0 1 = 0"
  by (simp_all add: atan2_real_def)

lemma atan2_real_range:
  assumes "0 \<le> b"
  shows "0 \<le> atan2_real b a \<and> atan2_real b a \<le> pi"
proof -
  have 1: "- (pi / 2) < arctan (b / a)" "arctan (b / a) < pi / 2"
    by (rule arctan_lbound, rule arctan_ubound)
  have 2: "arctan (b / a) \<le> 0" if "a < 0"
  proof -
    have "b / a \<le> 0" using that assms by (simp add: divide_nonneg_neg)
    then show ?thesis by (simp add: arctan_le_zero_iff)
  qed
  have 3: "0 \<le> arctan (b / a)" if "0 < a"
  proof -
    have "0 \<le> b / a" using that assms by simp
    then show ?thesis by (simp add: zero_le_arctan_iff)
  qed
  show ?thesis
    using 1 2 3 assms pi_gt_zero by (auto simp add: atan2_real_def)
qed

lemma atan2_magnitude_range: "0 \<le> atan2_magnitude b a \<and> atan2_magnitude b a \<le> pi"
  using atan2_real_range [of "\<bar>fval b\<bar>" "fval a"] pi_gt_zero
  by (simp add: atan2_magnitude_def)

lemma atan2_magnitude_fneg: "atan2_magnitude (fneg b) a = atan2_magnitude b a"
  by (simp add: atan2_magnitude_def)

lemma rval_binary32_pi: "2 \<le> rval binary32 pi" "rval binary32 pi \<le> 4"
proof -
  have 2: "rval binary32 2 = 2" using rval_binary32_int [of 2] by simp
  have 4: "rval binary32 4 = 4" using rval_binary32_int [of 4] by simp
  show "2 \<le> rval binary32 pi" using pi_ge_two 2 by (intro rval_ge) simp_all
  have "pi \<le> 4" using pi_less_4 by simp
  then show "rval binary32 pi \<le> 4" using 4 by (intro rval_le) simp_all
qed

lemma rnd_binary32_pi: "rnd binary32 pi = Fin (rval binary32 pi)"
  using rval_binary32_pi by (simp add: rnd_def overflow_threshold_binary32)

lemma rnd_angle:
  assumes "0 \<le> v" and "v \<le> pi"
  shows "\<exists>r. (if v = 0 then Fin 0 else rnd binary32 v) = Fin r \<and> 0 \<le> r \<and> r \<le> rval binary32 pi"
proof -
  have lo: "0 \<le> rval binary32 v" using assms(1) by (rule rval_nonneg)
  have hi: "rval binary32 v \<le> rval binary32 pi" using assms(2) by (intro rval_mono) simp_all
  then have "\<bar>rval binary32 v\<bar> < 2 ^ 128" using lo rval_binary32_pi(2) by simp
  then show ?thesis
    using lo hi assms(1) rval_binary32_pi(1)
    by (simp add: rnd_def overflow_threshold_binary32 zero_of_def)
qed

lemma fabs_atan2:
  "fabs (atan2 b a) =
     (if isnan b \<or> isnan a then NaN
      else if atan2_magnitude b a = 0 then Fin 0
      else rnd binary32 (atan2_magnitude b a))"
proof -
  obtain r where r: "(if atan2_magnitude b a = 0 then Fin 0 else rnd binary32 (atan2_magnitude b a))
      = Fin r" "0 \<le> r"
    using rnd_angle [of "atan2_magnitude b a"] atan2_magnitude_range [of b a] by blast
  show ?thesis
    unfolding atan2_def Let_def r(1) using r(2) by simp
qed

lemma fabs_atan2_range:
  assumes "\<not> isnan b" and "\<not> isnan a"
  shows "\<exists>r. fabs (atan2 b a) = Fin r \<and> 0 \<le> r \<and> r \<le> rval binary32 pi"
  using rnd_angle [of "atan2_magnitude b a"] atan2_magnitude_range [of b a] assms
  by (simp add: fabs_atan2)

lemma fabs_atan2_isnan: "isnan (fabs (atan2 b a)) = (isnan b \<or> isnan a)"
  using fabs_atan2_range [of b a] by (auto simp add: fabs_atan2)

lemma fabs_atan2_fneg: "fabs (atan2 (fneg b) a) = fabs (atan2 b a)"
  by (simp add: fabs_atan2 atan2_magnitude_fneg)

subsection \<open>The two products\<close>

lemma fneg_inf_of [simp]: "fneg (inf_of s) = inf_of (\<not> s)"
  by (simp add: inf_of_def)

lemma fneg_zero_of [simp]: "fneg (zero_of s) = zero_of (\<not> s)"
  by (simp add: zero_of_def)

lemma rnd_minus: "v \<noteq> 0 \<Longrightarrow> rnd f (- v) = fneg (rnd f v)"
  by (auto simp add: rnd_def rval_minus inf_of_def zero_of_def)

lemma fmul_commute: "fmul f a b = fmul f b a"
  by (cases "signbit a"; cases "signbit b") (auto simp add: fmul_def mult.commute)

lemma fsub_finite:
  assumes "isfinite a" and "isfinite b"
  shows "fsub f a b =
     (if fval a - fval b = 0 then zero_of ((iszero a \<and> signbit a) \<and> (iszero b \<and> \<not> signbit b))
      else rnd f (fval a - fval b))"
  using assms by (cases a; cases b) (simp_all add: fsub_def fadd_def)

lemma fsub_swap: "fsub f b a = fsub f a b \<or> fsub f b a = fneg (fsub f a b)"
proof (cases "isfinite a \<and> isfinite b")
  case True
  show ?thesis
  proof (cases "fval a - fval b = 0")
    case True
    with \<open>isfinite a \<and> isfinite b\<close> show ?thesis
      by (simp add: fsub_finite zero_of_def)
  next
    case False
    have "rnd f (- (fval a - fval b)) = fneg (rnd f (fval a - fval b))"
      using False by (rule rnd_minus)
    then have "rnd f (fval b - fval a) = fneg (rnd f (fval a - fval b))" by simp
    with False \<open>isfinite a \<and> isfinite b\<close> show ?thesis
      by (simp add: fsub_finite)
  qed
next
  case False
  then show ?thesis
    by (cases a; cases b) (simp_all add: fsub_def fadd_def)
qed

lemma fabs_atan2_swap: "fabs (atan2 (fsub f b a) d) = fabs (atan2 (fsub f a b) d)"
  using fsub_swap [of f b a] by (auto simp add: fabs_atan2_fneg)

lemma AbsoluteAngleTo_finite:
  assumes "IsFinite this" and "IsFinite other"
  shows "AbsoluteAngleTo this other =
     Inr (fabs (atan2 (fsub binary32 (fmul binary32 (x this) (y other))
                                     (fmul binary32 (y this) (x other)))
                      (fadd binary32 (fmul binary32 (x this) (x other))
                                     (fmul binary32 (y this) (y other)))))"
  using assms by (simp add: AbsoluteAngleTo_def Let_def)

lemma pow64_overflow:
  "fmul binary32 (Fin (2 ^ 64)) (Fin (2 ^ 64)) = PInf"
  "fmul binary32 (Fin (2 ^ 64)) (Fin (2 ^ 65)) = PInf"
  "fmul binary32 (Fin (2 ^ 65)) (Fin (2 ^ 64)) = PInf"
  "fmul binary32 (Fin (2 ^ 100)) (Fin (2 ^ 100)) = PInf"
  "fmul binary32 (Fin (2 ^ 100)) (Fin (- (2 ^ 100))) = NInf"
  using rnd_binary32_overflow [of "2 ^ 64 * 2 ^ 64"] rnd_binary32_overflow [of "2 ^ 64 * 2 ^ 65"]
    rnd_binary32_overflow [of "2 ^ 100 * 2 ^ 100"]
    rnd_binary32_overflow [of "- (2 ^ 100 * 2 ^ 100)"]
  by (simp_all add: fmul_Fin inf_of_def)

text \<open>
  C2, as stated, fails: the vector \<open>(2^64, 2^64)\<close> is finite, but every product of its
  components overflows to infinity, so the cross product is \<open>infinity - infinity\<close>, NaN,
  and so is the angle that \<open>AbsoluteAngleTo\<close> returns with status OK. NaN does not lie
  in \<open>[0, pi]\<close>.
\<close>

theorem AbsoluteAngleTo_overflow_counterexample:
  "IsFinite \<lparr>x = Fin (2 ^ 64), y = Fin (2 ^ 64)\<rparr>
   \<and> AbsoluteAngleTo \<lparr>x = Fin (2 ^ 64), y = Fin (2 ^ 64)\<rparr> \<lparr>x = Fin (2 ^ 64), y = Fin (2 ^ 64)\<rparr>
       = Inr NaN
   \<and> \<not> fle (Fin 0) NaN \<and> \<not> fle NaN (Fin pi)"
  by (simp add: AbsoluteAngleTo_def IsFinite_def Let_def pow64_overflow [simplified] fsub_def
        fadd_def atan2_def)

text \<open>
  C2, amended. \<open>AbsoluteAngleTo\<close> returns the invalid-argument error if either vector is
  non-finite. Otherwise it returns, with status OK, the absolute value of \<open>atan2\<close> of the
  cross and the dot product as float arithmetic computes them. That value is NaN exactly
  when the cross or the dot product is NaN, and otherwise it lies between 0 and the
  float nearest to \<open>pi\<close>.
\<close>

theorem AbsoluteAngleTo_range:
  "(\<not> IsFinite this \<or> \<not> IsFinite other \<longrightarrow>
      AbsoluteAngleTo this other = Inl (InvalidArgumentError ''Non-finite inputs''))
   \<and> (IsFinite this \<and> IsFinite other \<longrightarrow>
        (\<exists>v. AbsoluteAngleTo this other = Inr v
           \<and> v = fabs (atan2 (fsub binary32 (fmul binary32 (x this) (y other))
                                             (fmul binary32 (y this) (x other)))
                              (fadd binary32 (fmul binary32 (x this) (x other))
                                             (fmul binary32 (y this) (y other))))
           \<and> isnan v =
               (isnan (fsub binary32 (fmul binary32 (x this) (y other))
                                     (fmul binary32 (y this) (x other)))
                \<or> isnan (fadd binary32 (fmul binary32 (x this) (x other))
                                        (fmul binary32 (y this) (y other))))
           \<and> (\<not> isnan v \<longrightarrow> fle (Fin 0) v \<and> fle v (rnd binary32 pi))))"
proof -
  have "\<not> isnan (fabs (atan2 b a)) \<longrightarrow>
      fle (Fin 0) (fabs (atan2 b a)) \<and> fle (fabs (atan2 b a)) (rnd binary32 pi)" for b a
    using fabs_atan2_range [of b a] by (auto simp add: fabs_atan2_isnan rnd_binary32_pi)
  then show ?thesis
    by (simp add: AbsoluteAngleTo_def Let_def fabs_atan2_isnan)
qed

theorem AbsoluteAngleTo_range_witness:
  "\<not> IsFinite \<lparr>x = NaN, y = Fin 0\<rparr>
   \<and> AbsoluteAngleTo \<lparr>x = NaN, y = Fin 0\<rparr> \<lparr>x = Fin 1, y = Fin 0\<rparr>
       = Inl (InvalidArgumentError ''Non-finite inputs'')
   \<and> IsFinite \<lparr>x = Fin 1, y = Fin 0\<rparr> \<and> IsFinite \<lparr>x = Fin 0, y = Fin 1\<rparr>
   \<and> (\<exists>v. AbsoluteAngleTo \<lparr>x = Fin 1, y = Fin 0\<rparr> \<lparr>x = Fin 0, y = Fin 1\<rparr> = Inr v
          \<and> \<not> isnan v \<and> fle (Fin 0) v \<and> fle v (rnd binary32 pi))"
  using AbsoluteAngleTo_range [of "\<lparr>x = NaN, y = Fin 0\<rparr>" "\<lparr>x = Fin 1, y = Fin 0\<rparr>"]
    AbsoluteAngleTo_range [of "\<lparr>x = Fin 1, y = Fin 0\<rparr>" "\<lparr>x = Fin 0, y = Fin 1\<rparr>"]
  by (simp add: IsFinite_def fmul_Fin fsub_Fin fadd_Fin zero_of_def rnd_binary32_values)

text \<open>
  C8, as stated, fails: \<open>(2^64, 2^64)\<close> and \<open>(2^65, 2^65)\<close> are finite non-zero vectors,
  and in both orders the products overflow and \<open>AbsoluteAngleTo\<close> returns NaN, which does
  not compare equal to itself.
\<close>

theorem AbsoluteAngleTo_symmetric_counterexample:
  "IsFinite \<lparr>x = Fin (2 ^ 64), y = Fin (2 ^ 64)\<rparr> \<and> IsFinite \<lparr>x = Fin (2 ^ 65), y = Fin (2 ^ 65)\<rparr>
   \<and> AbsoluteAngleTo \<lparr>x = Fin (2 ^ 64), y = Fin (2 ^ 64)\<rparr> \<lparr>x = Fin (2 ^ 65), y = Fin (2 ^ 65)\<rparr>
       = Inr NaN
   \<and> AbsoluteAngleTo \<lparr>x = Fin (2 ^ 65), y = Fin (2 ^ 65)\<rparr> \<lparr>x = Fin (2 ^ 64), y = Fin (2 ^ 64)\<rparr>
       = Inr NaN
   \<and> \<not> feq NaN NaN"
  by (simp add: AbsoluteAngleTo_def IsFinite_def Let_def pow64_overflow [simplified] fsub_def
        fadd_def atan2_def)

text \<open>
  C8, amended. For all finite vectors \<open>a\<close> and \<open>b\<close>, zero or not, \<open>AbsoluteAngleTo(a, b)\<close>
  and \<open>AbsoluteAngleTo(b, a)\<close> succeed with the same value. The two results compare equal
  with \<open>==\<close> exactly when that value is not NaN.
\<close>

theorem AbsoluteAngleTo_symmetric:
  assumes "IsFinite a" and "IsFinite b"
  shows "AbsoluteAngleTo a b = AbsoluteAngleTo b a
    \<and> (\<exists>v. AbsoluteAngleTo a b = Inr v \<and> AbsoluteAngleTo b a = Inr v
          \<and> feq v v = (\<not> isnan v))"
proof -
  have "fmul binary32 (x b) (y a) = fmul binary32 (y a) (x b)"
    "fmul binary32 (y b) (x a) = fmul binary32 (x a) (y b)"
    "fmul binary32 (x b) (x a) = fmul binary32 (x a) (x b)"
    "fmul binary32 (y b) (y a) = fmul binary32 (y a) (y b)"
    by (rule fmul_commute)+
  then have "AbsoluteAngleTo b a = AbsoluteAngleTo a b"
    unfolding AbsoluteAngleTo_finite [OF assms] AbsoluteAngleTo_finite [OF assms(2,1)]
    by (simp only: fabs_atan2_swap)
  then show ?thesis
    unfolding AbsoluteAngleTo_finite [OF assms] by (simp add: feq_refl)
qed

theorem AbsoluteAngleTo_symmetric_witness:
  "IsFinite \<lparr>x = Fin 1, y = Fin 0\<rparr> \<and> IsFinite \<lparr>x = Fin 0, y = Fin 1\<rparr>
   \<and> AbsoluteAngleTo \<lparr>x = Fin 1, y = Fin 0\<rparr> \<lparr>x = Fin 0, y = Fin 1\<rparr>
       = AbsoluteAngleTo \<lparr>x = Fin 0, y = Fin 1\<rparr> \<lparr>x = Fin 1, y = Fin 0\<rparr>"
proof -
  have 1: "IsFinite \<lparr>x = Fin 1, y = Fin 0\<rparr>" by (simp add: IsFinite_def)
  have 2: "IsFinite \<lparr>x = Fin 0, y = Fin 1\<rparr>" by (simp add: IsFinite_def)
  show ?thesis using 1 2 AbsoluteAngleTo_symmetric [OF 1 2] by simp
qed


subsection \<open>Zero vectors\<close>


lemma iszero_zero_of [simp]: "iszero (zero_of s)"
  by (simp add: zero_of_def)






text \<open>
  With a zero vector the angle is 0 or the float nearest to \<open>pi\<close>, by the signs of the
  zero products: the dot product of \<open>(0, 0)\<close> and \<open>(-1, -1)\<close> is the negative zero.
\<close>

lemma AbsoluteAngleTo_zero_examples:
  "AbsoluteAngleTo \<lparr>x = Fin 0, y = Fin 0\<rparr> \<lparr>x = Fin 2, y = Fin 0\<rparr> = Inr (Fin 0)"
  "AbsoluteAngleTo \<lparr>x = Fin 0, y = Fin 0\<rparr> \<lparr>x = Fin (- 1), y = Fin (- 1)\<rparr>
     = Inr (rnd binary32 pi)"
  using pi_gt_zero rval_binary32_pi
  by (simp_all add: AbsoluteAngleTo_def IsFinite_def Let_def fmul_Fin fsub_def fadd_def
        zero_of_def fabs_atan2 atan2_magnitude_def)





end
